theory Spec2Isabelle
  imports Main "HOL-Library.Sublist"
begin

section \<open>The NVD client of \<^verbatim>\<open>src/api/nvd_api.py\<close>\<close>

subsection \<open>Dates\<close>

text \<open>
  A naive \<^verbatim>\<open>datetime\<close> is the number of microseconds since
  \<^verbatim>\<open>datetime.min\<close>, a \<^verbatim>\<open>timedelta\<close> a number of microseconds;
  subtraction, addition and comparison of the two Python types are then the ones of \<open>int\<close>.
\<close>

type_synonym datetime = int
type_synonym timedelta = int

definition timedelta_days :: "int \<Rightarrow> timedelta" where
  "timedelta_days d = d * 86400000000"

definition max_delta :: timedelta where
  "max_delta = timedelta_days 120"

text \<open>
  The loop of \<^verbatim>\<open>search_by_name_and_date\<close> (lines 48 to 53). The variable
  \<^verbatim>\<open>my_delta\<close> holds \<^verbatim>\<open>now - curr_date\<close> whenever the loop test
  is evaluated, so the test is written on \<open>now - curr_date\<close>. The loop returns the list
  \<^verbatim>\<open>ranges\<close> and the last value of \<^verbatim>\<open>curr_date\<close>.
\<close>

function chunk_loop ::
  "datetime \<Rightarrow> datetime \<Rightarrow> (datetime \<times> datetime) list \<Rightarrow> (datetime \<times> datetime) list \<times> datetime"
where
  "chunk_loop now curr_date ranges =
     (if now - curr_date > max_delta
      then chunk_loop now (curr_date + max_delta) (ranges @ [(curr_date, curr_date + max_delta)])
      else (ranges, curr_date))"
  by pat_completeness auto
termination
  by (relation "measure (\<lambda>(now, curr_date, ranges). nat (now - curr_date))")
     (auto simp: max_delta_def timedelta_days_def)

text \<open>Lines 44 to 54: the ranges that are queried, for the clock value \<open>now\<close>.\<close>

definition date_ranges :: "datetime \<Rightarrow> datetime \<Rightarrow> (datetime \<times> datetime) list" where
  "date_ranges now start_date =
     (case chunk_loop now start_date [] of
        (ranges, curr_date) \<Rightarrow> ranges @ [(curr_date, now)])"

text \<open>The interval number \<open>k\<close> of full length that starts \<open>k\<close> steps after \<open>s\<close>.\<close>

definition full_chunk :: "datetime \<Rightarrow> nat \<Rightarrow> datetime \<times> datetime" where
  "full_chunk s k = (s + int k * max_delta, s + int k * max_delta + max_delta)"

subsection \<open>Decoded JSON and exceptions\<close>

text \<open>
  The exceptions the modelled code can raise. \<open>OutsideModel\<close> is not a Python exception:
  it marks the inputs on which Python goes on with a value that the record types below
  cannot hold (an identifier or severity that is not a string, a payload that is an array).
\<close>

datatype error = APIError | AttributeError | KeyError | TypeError | ValueError | OutsideModel

text \<open>
  What \<^verbatim>\<open>response.json()\<close> returns: \<^verbatim>\<open>None\<close>, \<^verbatim>\<open>bool\<close>,
  \<^verbatim>\<open>int\<close>, \<^verbatim>\<open>str\<close>, \<^verbatim>\<open>list\<close> and \<^verbatim>\<open>dict\<close>
  (keys in the order of the document, looked up with \<open>map_of\<close>). Numbers with a fraction
  do not occur in the fields that are read and are left out.
\<close>

datatype json =
    JNull
  | JBool bool
  | JNum int
  | JStr string
  | JArr "json list"
  | JObj "(string \<times> json) list"

definition and_then :: "error + 'a \<Rightarrow> ('a \<Rightarrow> error + 'b) \<Rightarrow> error + 'b" where
  "and_then r f = (case r of Inl e \<Rightarrow> Inl e | Inr x \<Rightarrow> f x)"

text \<open>\<^verbatim>\<open>v[k]\<close> for a string key: only a dict can be subscripted by a string.\<close>

fun getitem :: "json \<Rightarrow> string \<Rightarrow> error + json" where
  "getitem (JObj kvs) k = (case map_of kvs k of None \<Rightarrow> Inl KeyError | Some v \<Rightarrow> Inr v)"
| "getitem _ k = Inl TypeError"

text \<open>\<^verbatim>\<open>for x in v\<close>: a list yields its items, a dict its keys, a string its characters.\<close>

fun iter_json :: "json \<Rightarrow> error + json list" where
  "iter_json (JArr js) = Inr js"
| "iter_json (JObj kvs) = Inr (map (\<lambda>kv. JStr (fst kv)) kvs)"
| "iter_json (JStr s) = Inr (map (\<lambda>c. JStr [c]) s)"
| "iter_json _ = Inl TypeError"

text \<open>\<^verbatim>\<open>v == 0\<close>: true for the integer zero and for \<^verbatim>\<open>False\<close>.\<close>

fun eq_zero :: "json \<Rightarrow> bool" where
  "eq_zero (JNum n) = (n = 0)"
| "eq_zero (JBool b) = (\<not> b)"
| "eq_zero _ = False"

text \<open>
  \<^verbatim>\<open>v.contains(s)\<close>: none of the decoded types has an attribute
  \<^verbatim>\<open>contains\<close> (a \<^verbatim>\<open>str\<close> has \<^verbatim>\<open>__contains__\<close> only), so the
  attribute lookup raises for every value.
\<close>

definition contains_method :: "json \<Rightarrow> string \<Rightarrow> error + bool" where
  "contains_method v s = Inl AttributeError"

text \<open>
  \<^verbatim>\<open>datetime.strptime(v, "%Y-%m-%dT%H:%MZ")\<close>. The library's parser for that format
  is a parameter \<open>strptime\<close>, \<open>None\<close> where it raises \<^verbatim>\<open>ValueError\<close>; an argument
  that is not a string raises \<^verbatim>\<open>TypeError\<close>.
\<close>

definition strptime_json :: "(string \<Rightarrow> datetime option) \<Rightarrow> json \<Rightarrow> error + datetime" where
  "strptime_json strptime v =
     (case v of
        JStr s \<Rightarrow> (case strptime s of None \<Rightarrow> Inl ValueError | Some d \<Rightarrow> Inr d)
      | _ \<Rightarrow> Inl TypeError)"

subsection \<open>Class \<^verbatim>\<open>Cve\<close>\<close>

record Cve =
  cve_id :: string
  published_date :: datetime
  last_modified_date :: datetime
  severity :: string

text \<open>
  The world outside a call: the list objects of the heap by address, the next free
  address, and the two answers of the network that the code reads (the response to a GET,
  the status code of a HEAD). The rate limiter only delays a call and is not modelled.
\<close>

type_synonym ref = nat

record response =
  ok :: bool
  body :: "json option"

record world =
  heap :: "ref \<Rightarrow> Cve list"
  next_ref :: ref
  http_get :: "string \<Rightarrow> (string \<times> string) list \<Rightarrow> response"
  head_status :: "string \<Rightarrow> int"

definition DETAIL_VIEW_PREFIX :: string where
  "DETAIL_VIEW_PREFIX = ''https://nvd.nist.gov/vuln/detail/''"

definition SEARCH_URL_SPECIFIC :: string where
  "SEARCH_URL_SPECIFIC = ''https://services.nvd.nist.gov/rest/json/cve/1.0''"

definition get_url :: "world \<Rightarrow> Cve \<Rightarrow> bool \<Rightarrow> string option" where
  "get_url w self check_is_up =
     (let url = DETAIL_VIEW_PREFIX @ cve_id self in
      if check_is_up then
        (let is_up = (head_status w url = 200) in
         if is_up then Some url else None)
      else Some url)"

text \<open>
  \<^verbatim>\<open>Cve.result_to_cve\<close>. The two dates are parsed first, then the identifier is
  read, then the impact; the record is built last.
\<close>

definition result_to_cve :: "(string \<Rightarrow> datetime option) \<Rightarrow> json \<Rightarrow> error + Cve" where
  "result_to_cve strptime result_json =
     and_then (getitem result_json ''lastModifiedDate'') (\<lambda>m.
     and_then (strptime_json strptime m) (\<lambda>mod_date.
     and_then (getitem result_json ''publishedDate'') (\<lambda>p.
     and_then (strptime_json strptime p) (\<lambda>pub_date.
     and_then (getitem result_json ''cve'') (\<lambda>c.
     and_then (getitem c ''CVE_data_meta'') (\<lambda>meta.
     and_then (getitem meta ''ID'') (\<lambda>ident.
     and_then (getitem result_json ''impact'') (\<lambda>impact.
     and_then (if impact = JObj [] then Inr (JStr ''UNKNOWN'')
               else and_then (getitem impact ''baseMetricV2'') (\<lambda>bm. getitem bm ''severity''))
       (\<lambda>sev.
          case (ident, sev) of
            (JStr i, JStr s) \<Rightarrow>
              Inr \<lparr>cve_id = i, published_date = pub_date,
                   last_modified_date = mod_date, severity = s\<rparr>
          | _ \<Rightarrow> Inl OutsideModel)))))))))"

subsection \<open>Class \<^verbatim>\<open>CveResultList\<close>\<close>

text \<open>
  An attribute that was never assigned (reading it raises) or its value;
  \<^verbatim>\<open>None\<close> is \<open>Holds JNull\<close>.
\<close>

datatype attr = Unset | Holds json

text \<open>The attribute \<^verbatim>\<open>results\<close> is a reference to a list object of the heap.\<close>

record CveResultList =
  results :: ref
  num_results :: attr

text \<open>A list display \<^verbatim>\<open>[]\<close> allocates a new list object.\<close>

definition new_list :: "world \<Rightarrow> world \<times> ref" where
  "new_list w =
     (w\<lparr>heap := (heap w)(next_ref w := []), next_ref := Suc (next_ref w)\<rparr>, next_ref w)"

text \<open>
  \<^verbatim>\<open>__init__\<close> when \<^verbatim>\<open>type(json_result) is list\<close>: the object refers to the
  list it was given, and \<^verbatim>\<open>num_results\<close> is not assigned.
\<close>

definition init_list :: "ref \<Rightarrow> CveResultList" where
  "init_list json_result = \<lparr>results = json_result, num_results = Unset\<rparr>"

fun parse_items :: "(string \<Rightarrow> datetime option) \<Rightarrow> json list \<Rightarrow> error + Cve list" where
  "parse_items strptime [] = Inr []"
| "parse_items strptime (cve_json # rest) =
     and_then (result_to_cve strptime cve_json) (\<lambda>cve.
     and_then (parse_items strptime rest) (\<lambda>cves. Inr (cve # cves)))"

text \<open>
  \<^verbatim>\<open>_parse_json\<close>: the count is stored, then every item is parsed and appended to
  \<^verbatim>\<open>self.results\<close>. An exception leaves the constructor, so the appends made
  before it are never seen and the model writes the list once.
\<close>

definition parse_json ::
  "(string \<Rightarrow> datetime option) \<Rightarrow> world \<Rightarrow> CveResultList \<Rightarrow> json \<Rightarrow> error + world \<times> CveResultList"
where
  "parse_json strptime w self json_result =
     and_then (getitem json_result ''totalResults'') (\<lambda>total.
     and_then (getitem json_result ''result'') (\<lambda>res.
     and_then (getitem res ''CVE_Items'') (\<lambda>items.
     and_then (iter_json items) (\<lambda>js.
     and_then (parse_items strptime js) (\<lambda>cves.
       Inr (w\<lparr>heap := (heap w)(results self := heap w (results self) @ cves)\<rparr>,
            self\<lparr>num_results := Holds total\<rparr>))))))"

text \<open>\<^verbatim>\<open>__init__\<close> in the other case.\<close>

definition init_json ::
  "(string \<Rightarrow> datetime option) \<Rightarrow> world \<Rightarrow> json \<Rightarrow> error + world \<times> CveResultList"
where
  "init_json strptime w json_result =
     (case new_list w of
        (w1, r) \<Rightarrow>
          (let self = \<lparr>results = r, num_results = Holds JNull\<rparr> in
           if json_result \<noteq> JNull then parse_json strptime w1 self json_result
           else Inr (w1, self)))"

text \<open>
  The constructor's argument: a list of records, or a decoded response. A decoded array
  is a Python list too and takes the first branch with items that are no records.
\<close>

datatype ctor_arg = Records ref | Decoded json

fun init ::
  "(string \<Rightarrow> datetime option) \<Rightarrow> world \<Rightarrow> ctor_arg \<Rightarrow> error + world \<times> CveResultList"
where
  "init strptime w (Records r) = Inr (w, init_list r)"
| "init strptime w (Decoded (JArr js)) = Inl OutsideModel"
| "init strptime w (Decoded json_result) = init_json strptime w json_result"

text \<open>
  \<^verbatim>\<open>max(xs, key=f)\<close>: the first item is the candidate, and a later item replaces it
  only when its key is greater; an empty argument raises \<^verbatim>\<open>ValueError\<close>.
\<close>

fun max_loop :: "('a \<Rightarrow> error + int) \<Rightarrow> 'a \<Rightarrow> int \<Rightarrow> 'a list \<Rightarrow> error + 'a" where
  "max_loop key maxitem maxval [] = Inr maxitem"
| "max_loop key maxitem maxval (x # xs) =
     and_then (key x) (\<lambda>v.
       if v > maxval then max_loop key x v xs else max_loop key maxitem maxval xs)"

definition max_key :: "('a \<Rightarrow> error + int) \<Rightarrow> 'a list \<Rightarrow> error + 'a" where
  "max_key key xs =
     (case xs of
        [] \<Rightarrow> Inl ValueError
      | x # rest \<Rightarrow> and_then (key x) (\<lambda>v. max_loop key x v rest))"

text \<open>
  \<^verbatim>\<open>get_latest\<close>. Both branches of the constructor store a list, so the test
  \<^verbatim>\<open>self.results is not None\<close> holds and the call of \<^verbatim>\<open>max\<close> is reached.
\<close>

definition get_latest :: "world \<Rightarrow> CveResultList \<Rightarrow> error + Cve option" where
  "get_latest w self =
     and_then (max_key (\<lambda>x. Inr (published_date x)) (heap w (results self)))
       (\<lambda>cve. Inr (Some cve))"

definition get_cve_id_list :: "world \<Rightarrow> CveResultList \<Rightarrow> bool \<Rightarrow> (string \<times> string option) list" where
  "get_cve_id_list w self make_urls =
     (if make_urls then map (\<lambda>cve. (cve_id cve, get_url w cve False)) (heap w (results self))
      else map (\<lambda>cve. (cve_id cve, None)) (heap w (results self)))"

definition severities :: "(string \<times> int) list" where
  "severities =
     [(''UNKNOWN'', -1), (''LOW'', 0), (''MEDIUM'', 1), (''HIGH'', 2), (''CRITICAL'', 3)]"

definition severity_ranking :: "Cve \<Rightarrow> error + int" where
  "severity_ranking cve =
     (case map_of severities (severity cve) of None \<Rightarrow> Inl KeyError | Some r \<Rightarrow> Inr r)"

definition get_max_severity :: "world \<Rightarrow> CveResultList \<Rightarrow> error + string option" where
  "get_max_severity w self =
     (if heap w (results self) = [] then Inr None
      else and_then (max_key severity_ranking (heap w (results self)))
             (\<lambda>cve. Inr (Some (severity cve))))"

text \<open>
  The values that \<^verbatim>\<open>in\<close> compares in \<^verbatim>\<open>add\<close>: a string on the left, the
  tuples of \<^verbatim>\<open>get_cve_id_list\<close> on the right. Python's \<^verbatim>\<open>==\<close> on strings,
  \<^verbatim>\<open>None\<close> and tuples of them is equality of these values.
\<close>

datatype pyval = PyNone | PyStr string | PyTuple "pyval list"

fun tuple_val :: "string \<times> string option \<Rightarrow> pyval" where
  "tuple_val (i, None) = PyTuple [PyStr i, PyNone]"
| "tuple_val (i, Some u) = PyTuple [PyStr i, PyStr u]"

text \<open>
  The loop of \<^verbatim>\<open>add\<close>. A Python list iterator holds an index and reads the length
  of the list at every step, so the loop sees what it appends when
  \<^verbatim>\<open>other.results\<close> and \<^verbatim>\<open>merged_results\<close> are one list object; it need
  not end, and \<open>None\<close> is the run that does not.
\<close>

partial_function (option) add_loop ::
  "world \<Rightarrow> CveResultList \<Rightarrow> ref \<Rightarrow> ref \<Rightarrow> nat \<Rightarrow> world option"
where
  "add_loop w first merged_results other_results i =
     (if i < length (heap w other_results) then
        (let x = heap w other_results ! i in
         if PyStr (cve_id x) \<notin> set (map tuple_val (get_cve_id_list w first False))
         then add_loop (w\<lparr>heap := (heap w)(merged_results := heap w merged_results @ [x])\<rparr>)
                first merged_results other_results (Suc i)
         else add_loop w first merged_results other_results (Suc i))
      else Some w)"

definition add :: "world \<Rightarrow> CveResultList \<Rightarrow> CveResultList \<Rightarrow> (world \<times> CveResultList) option" where
  "add w first other =
     (let merged_results = results first in
      case add_loop w first merged_results (results other) 0 of
        None \<Rightarrow> None
      | Some w' \<Rightarrow> Some (w', init_list merged_results))"

text \<open>
  Line 61, \<^verbatim>\<open>functools.reduce(CveResultList.add, results, CveResultList([]))\<close>.
\<close>

fun reduce_add ::
  "world \<Rightarrow> CveResultList \<Rightarrow> CveResultList list \<Rightarrow> (world \<times> CveResultList) option"
where
  "reduce_add w acc [] = Some (w, acc)"
| "reduce_add w acc (x # xs) =
     (case add w acc x of None \<Rightarrow> None | Some (w', acc') \<Rightarrow> reduce_add w' acc' xs)"

definition empty_seed :: "world \<Rightarrow> world \<times> CveResultList" where
  "empty_seed w = (case new_list w of (w1, r) \<Rightarrow> (w1, init_list r))"

definition merge_all :: "world \<Rightarrow> CveResultList list \<Rightarrow> (world \<times> CveResultList) option" where
  "merge_all w rs = (case empty_seed w of (w1, seed) \<Rightarrow> reduce_add w1 seed rs)"

subsection \<open>Class \<^verbatim>\<open>NvdApi\<close>\<close>

definition perform_request :: "world \<Rightarrow> string \<Rightarrow> (string \<times> string) list \<Rightarrow> error + json" where
  "perform_request w url parameters =
     (let resp = http_get w url parameters in
      if ok resp then (case body resp of None \<Rightarrow> Inl ValueError | Some j \<Rightarrow> Inr j)
      else Inl APIError)"

definition request_specific_by_id :: "world \<Rightarrow> string \<Rightarrow> error + json" where
  "request_specific_by_id w ident =
     (let search_url = SEARCH_URL_SPECIFIC @ ''/'' @ ident in
      perform_request w search_url [])"

text \<open>
  \<^verbatim>\<open>search_by_id\<close>. \<^verbatim>\<open>data.keys()\<close> exists on a dict only; the right operand
  of \<^verbatim>\<open>and\<close> is evaluated when the key is present, and the right operand of
  \<^verbatim>\<open>or\<close> when the left one is false.
\<close>

definition search_by_id ::
  "(string \<Rightarrow> datetime option) \<Rightarrow> world \<Rightarrow> string \<Rightarrow> error + world \<times> CveResultList"
where
  "search_by_id strptime w ident =
     and_then (request_specific_by_id w ident) (\<lambda>data.
       case data of
         JObj kvs \<Rightarrow>
           and_then (if ''message'' \<in> set (map fst kvs)
                     then and_then (getitem data ''message'')
                            (\<lambda>m. contains_method m ''Unable to find vuln'')
                     else Inr False)
             (\<lambda>not_found.
                if not_found then Inl APIError
                else and_then (getitem data ''totalResults'') (\<lambda>total.
                       if eq_zero total then Inl APIError
                       else init strptime w (Decoded data)))
       | _ \<Rightarrow> Inl AttributeError)"

subsection \<open>Inputs of the examples\<close>

text \<open>The record sequence of a result list in a world.\<close>

definition records_of :: "world \<Rightarrow> CveResultList \<Rightarrow> Cve list" where
  "records_of w rs = heap w (results rs)"

definition example_cve :: "string \<Rightarrow> string \<Rightarrow> Cve" where
  "example_cve i s =
     \<lparr>cve_id = i, published_date = 0, last_modified_date = 0, severity = s\<rparr>"

text \<open>
  The response of the service for an identifier it does not know, and a world where every
  GET is answered with it. The heap holds the two chunks of the end-to-end scenario at
  addresses 0 and 1 and a third list at address 2.
\<close>

definition not_found_body :: json where
  "not_found_body =
     JObj [(''message'', JStr ''Unable to find vuln CVE-0000-0000''), (''totalResults'', JNum 0)]"

definition example_world :: world where
  "example_world =
     \<lparr>heap = (\<lambda>r. [])
        (0 := [example_cve ''CVE-1'' ''HIGH'', example_cve ''CVE-2'' ''LOW''],
         1 := [example_cve ''CVE-2'' ''CRITICAL'', example_cve ''CVE-3'' ''MEDIUM''],
         2 := [example_cve ''CVE-9'' ''LOW'']),
      next_ref = 3,
      http_get = (\<lambda>url parameters. \<lparr>ok = True, body = Some not_found_body\<rparr>),
      head_status = (\<lambda>url. 404)\<rparr>"

text \<open>A parser of dates that knows one string, the first of January 2020.\<close>

definition example_strptime :: "string \<Rightarrow> datetime option" where
  "example_strptime s =
     (if s = ''2020-01-01T00:00Z'' then Some (timedelta_days 737424) else None)"

definition example_item :: "(string \<times> json) list \<Rightarrow> json" where
  "example_item impact_fields =
     JObj ([(''cve'', JObj [(''CVE_data_meta'', JObj [(''ID'', JStr ''CVE-1'')])]),
            (''publishedDate'', JStr ''2020-01-01T00:00Z''),
            (''lastModifiedDate'', JStr ''2020-01-01T00:00Z'')] @ impact_fields)"

section \<open>Properties\<close>

subsection \<open>The date ranges\<close>

lemma max_delta_pos: "0 < max_delta"
  by (simp add: max_delta_def timedelta_days_def)

lemma chunk_loop_closed:
  "\<exists>n. chunk_loop now c acc = (acc @ map (full_chunk c) [0..<n], c + int n * max_delta)
       \<and> now - (c + int n * max_delta) \<le> max_delta
       \<and> (\<forall>k<n. max_delta < now - (c + int k * max_delta))"
proof (induction now c acc rule: chunk_loop.induct)
  case (1 now c acc)
  show ?case
  proof (cases "now - c > max_delta")
    case False
    then have "chunk_loop now c acc = (acc @ map (full_chunk c) [0..<0], c + int 0 * max_delta)"
      by simp
    with False show ?thesis
      by (intro exI[of _ 0]) simp
  next
    case True
    from "1.IH"[OF True] obtain n where
      eq: "chunk_loop now (c + max_delta) (acc @ [(c, c + max_delta)]) =
             ((acc @ [(c, c + max_delta)]) @ map (full_chunk (c + max_delta)) [0..<n],
              c + max_delta + int n * max_delta)"
      and stop: "now - (c + max_delta + int n * max_delta) \<le> max_delta"
      and go: "\<forall>k<n. max_delta < now - (c + max_delta + int k * max_delta)"
      by blast
    have shift: "full_chunk (c + max_delta) k = full_chunk c (Suc k)" for k
      by (simp add: full_chunk_def algebra_simps)
    have "map (full_chunk c) [0..<Suc n] = full_chunk c 0 # map (full_chunk (c + max_delta)) [0..<n]"
      by (simp add: map_upt_Suc shift del: upt_Suc)
    moreover have "full_chunk c 0 = (c, c + max_delta)"
      by (simp add: full_chunk_def)
    ultimately have "chunk_loop now c acc =
        (acc @ map (full_chunk c) [0..<Suc n], c + int (Suc n) * max_delta)"
      using True eq by (simp add: algebra_simps)
    moreover have "now - (c + int (Suc n) * max_delta) \<le> max_delta"
      using stop by (simp add: algebra_simps)
    moreover have "\<forall>k<Suc n. max_delta < now - (c + int k * max_delta)"
    proof (intro allI impI)
      fix k assume "k < Suc n"
      show "max_delta < now - (c + int k * max_delta)"
      proof (cases k)
        case 0
        with True show ?thesis by simp
      next
        case (Suc j)
        with \<open>k < Suc n\<close> go have "max_delta < now - (c + max_delta + int j * max_delta)" by simp
        with Suc show ?thesis by (simp add: algebra_simps)
      qed
    qed
    ultimately show ?thesis by blast
  qed
qed

lemma date_ranges_closed:
  "\<exists>n. date_ranges now s = map (full_chunk s) [0..<n] @ [(s + int n * max_delta, now)]
       \<and> now - (s + int n * max_delta) \<le> max_delta
       \<and> (\<forall>k<n. max_delta < now - (s + int k * max_delta))"
proof -
  from chunk_loop_closed[of now s "[]"] obtain n where
    "chunk_loop now s [] = ([] @ map (full_chunk s) [0..<n], s + int n * max_delta)"
    "now - (s + int n * max_delta) \<le> max_delta"
    "\<forall>k<n. max_delta < now - (s + int k * max_delta)"
    by blast
  then show ?thesis
    by (intro exI[of _ n]) (simp add: date_ranges_def)
qed

lemma nth_closed:
  assumes "rs = map (full_chunk s) [0..<n] @ [(s + int n * max_delta, now)]" and "i \<le> n"
  shows "fst (rs ! i) = s + int i * max_delta"
    and "snd (rs ! i) = (if i < n then s + int i * max_delta + max_delta else now)"
  using assms by (auto simp: nth_append full_chunk_def)

lemma chunk_starts_mono:
  assumes "i < j"
  shows "s + int i * max_delta + max_delta \<le> s + int j * max_delta"
proof -
  from assms have "int i + 1 \<le> int j" by simp
  then have "(int i + 1) * max_delta \<le> int j * max_delta"
    using max_delta_pos by (intro mult_right_mono) simp_all
  then show ?thesis by (simp add: algebra_simps)
qed

lemma closed_cover:
  fixes s now :: int
  assumes rs: "rs = map (full_chunk s) [0..<n] @ [(s + int n * max_delta, now)]"
    and t: "s \<le> t" "t < now"
  shows "\<exists>!i. i < length rs \<and> fst (rs ! i) \<le> t \<and> t < snd (rs ! i)"
proof -
  have len: "length rs = Suc n" using rs by simp
  define q where "q = nat ((t - s) div max_delta)"
  define i where "i = min n q"
  have q0: "0 \<le> (t - s) div max_delta"
    using t max_delta_pos by (simp add: pos_imp_zdiv_nonneg_iff)
  have qlo: "int q * max_delta \<le> t - s"
  proof -
    have "t - s = max_delta * ((t - s) div max_delta) + (t - s) mod max_delta" by simp
    moreover have "0 \<le> (t - s) mod max_delta" using max_delta_pos by simp
    ultimately have "max_delta * ((t - s) div max_delta) \<le> t - s" by linarith
    then show ?thesis using q0 by (simp add: q_def mult.commute)
  qed
  have qhi: "t - s < int q * max_delta + max_delta"
  proof -
    have "t - s = max_delta * ((t - s) div max_delta) + (t - s) mod max_delta" by simp
    moreover have "(t - s) mod max_delta < max_delta" using max_delta_pos by simp
    ultimately have "t - s < max_delta * ((t - s) div max_delta) + max_delta" by linarith
    then show ?thesis using q0 by (simp add: q_def mult.commute)
  qed
  have ilo: "s + int i * max_delta \<le> t"
  proof -
    have "int i \<le> int q" by (simp add: i_def)
    then have "int i * max_delta \<le> int q * max_delta"
      using max_delta_pos by (intro mult_right_mono) simp_all
    with qlo show ?thesis by linarith
  qed
  have ex: "i < length rs \<and> fst (rs ! i) \<le> t \<and> t < snd (rs ! i)"
  proof (cases "i < n")
    case True
    then have "i = q" by (simp add: i_def)
    with True qhi ilo show ?thesis
      using nth_closed[OF rs, of i] len by simp
  next
    case False
    then have "i = n" by (simp add: i_def)
    with ilo t show ?thesis
      using nth_closed[OF rs, of n] len by simp
  qed
  have disj: False
    if a: "a < length rs" "fst (rs ! a) \<le> t" "t < snd (rs ! a)"
      and b: "b < length rs" "fst (rs ! b) \<le> t" "t < snd (rs ! b)" and "a < b" for a b
  proof -
    from that len have "a < n" "b \<le> n" by simp_all
    then have "snd (rs ! a) = s + int a * max_delta + max_delta"
      and "fst (rs ! b) = s + int b * max_delta"
      using nth_closed[OF rs, of a] nth_closed[OF rs, of b] by simp_all
    with chunk_starts_mono[OF \<open>a < b\<close>, of s] a b show False by linarith
  qed
  show ?thesis
  proof (rule ex1I[of _ i])
    show "i < length rs \<and> fst (rs ! i) \<le> t \<and> t < snd (rs ! i)" by (rule ex)
  next
    fix j assume j: "j < length rs \<and> fst (rs ! j) \<le> t \<and> t < snd (rs ! j)"
    show "j = i"
    proof (rule ccontr)
      assume "j \<noteq> i"
      then consider "j < i" | "i < j" by linarith
      then show False
      proof cases
        case 1 with disj[of j i] j ex show False by blast
      next
        case 2 with disj[of i j] j ex show False by blast
      qed
    qed
  qed
qed

text \<open>
  Claim C5. For \<open>start_date < now\<close> the ranges of \<^verbatim>\<open>search_by_name_and_date\<close>
  start at \<open>start_date\<close>, each one starts where the one before ends, each one is not
  empty and at most 120 days long, the last one ends at \<open>now\<close>, and every instant of
  \<open>[start_date, now)\<close> lies in exactly one of them. For \<open>now \<le> start_date\<close> the only
  range is \<open>(start_date, now)\<close>.
\<close>

theorem date_ranges_partition:
  "(start_date < now \<longrightarrow>
      date_ranges now start_date \<noteq> []
    \<and> fst (hd (date_ranges now start_date)) = start_date
    \<and> snd (last (date_ranges now start_date)) = now
    \<and> (\<forall>i. Suc i < length (date_ranges now start_date) \<longrightarrow>
          snd (date_ranges now start_date ! i) = fst (date_ranges now start_date ! Suc i))
    \<and> (\<forall>i < length (date_ranges now start_date).
          fst (date_ranges now start_date ! i) < snd (date_ranges now start_date ! i)
        \<and> snd (date_ranges now start_date ! i) - fst (date_ranges now start_date ! i)
            \<le> timedelta_days 120)
    \<and> (\<forall>t. start_date \<le> t \<and> t < now \<longrightarrow>
          (\<exists>!i. i < length (date_ranges now start_date)
              \<and> fst (date_ranges now start_date ! i) \<le> t
              \<and> t < snd (date_ranges now start_date ! i))))
 \<and> (now \<le> start_date \<longrightarrow> date_ranges now start_date = [(start_date, now)])"
proof (intro conjI impI)
  assume "now \<le> start_date"
  then show "date_ranges now start_date = [(start_date, now)]"
    using max_delta_pos by (simp add: date_ranges_def)
next
  obtain n where rs: "date_ranges now start_date =
        map (full_chunk start_date) [0..<n] @ [(start_date + int n * max_delta, now)]"
    and stop: "now - (start_date + int n * max_delta) \<le> max_delta"
    and go: "\<forall>k<n. max_delta < now - (start_date + int k * max_delta)"
    using date_ranges_closed[of now start_date] by blast
  have len: "length (date_ranges now start_date) = Suc n" using rs by simp
  note nth = nth_closed[OF rs]
  {
    show "date_ranges now start_date \<noteq> []" using rs by simp
  next
    show "fst (hd (date_ranges now start_date)) = start_date"
      using nth(1)[of 0] rs by (simp add: hd_conv_nth)
  next
    show "snd (last (date_ranges now start_date)) = now" using rs by simp
  next
    show "\<forall>i. Suc i < length (date_ranges now start_date) \<longrightarrow>
          snd (date_ranges now start_date ! i) = fst (date_ranges now start_date ! Suc i)"
    proof (intro allI impI)
      fix i assume "Suc i < length (date_ranges now start_date)"
      with len have "i < n" by simp
      then show "snd (date_ranges now start_date ! i) = fst (date_ranges now start_date ! Suc i)"
        using nth(2)[of i] nth(1)[of "Suc i"] by (simp add: algebra_simps)
    qed
  next
    assume lt: "start_date < now"
    show "\<forall>i < length (date_ranges now start_date).
          fst (date_ranges now start_date ! i) < snd (date_ranges now start_date ! i)
        \<and> snd (date_ranges now start_date ! i) - fst (date_ranges now start_date ! i)
            \<le> timedelta_days 120"
    proof (intro allI impI)
      fix i assume "i < length (date_ranges now start_date)"
      with len have i: "i \<le> n" by simp
      show "fst (date_ranges now start_date ! i) < snd (date_ranges now start_date ! i)
        \<and> snd (date_ranges now start_date ! i) - fst (date_ranges now start_date ! i)
            \<le> timedelta_days 120"
      proof (cases "i < n")
        case True
        then show ?thesis using nth[of i] max_delta_pos by (simp add: max_delta_def)
      next
        case False
        with i have [simp]: "i = n" by simp
        have "start_date + int n * max_delta < now"
        proof (cases n)
          case 0 with lt show ?thesis by simp
        next
          case (Suc m)
          with go have "max_delta < now - (start_date + int m * max_delta)" by simp
          with Suc show ?thesis by (simp add: algebra_simps)
        qed
        with stop show ?thesis using nth[of n] by (simp add: max_delta_def)
      qed
    qed
  next
    show "\<forall>t. start_date \<le> t \<and> t < now \<longrightarrow>
          (\<exists>!i. i < length (date_ranges now start_date)
              \<and> fst (date_ranges now start_date ! i) \<le> t
              \<and> t < snd (date_ranges now start_date ! i))"
      using closed_cover[OF rs] by blast
  }
qed

lemma date_ranges_300_days:
  "date_ranges (timedelta_days 300) 0 =
     [(0, timedelta_days 120), (timedelta_days 120, timedelta_days 240),
      (timedelta_days 240, timedelta_days 300)]"
  by (simp add: date_ranges_def max_delta_def timedelta_days_def)

text \<open>
  Claim C5 at 300 days before \<open>now\<close> (three ranges), with the instant of day 130, and at a
  start one day after \<open>now\<close>.
\<close>

theorem date_ranges_partition_witness:
  "(0::int) < timedelta_days 300
 \<and> date_ranges (timedelta_days 300) 0 \<noteq> []
 \<and> fst (hd (date_ranges (timedelta_days 300) 0)) = 0
 \<and> snd (last (date_ranges (timedelta_days 300) 0)) = timedelta_days 300
 \<and> (Suc 0 < length (date_ranges (timedelta_days 300) 0)
      \<and> snd (date_ranges (timedelta_days 300) 0 ! 0) = fst (date_ranges (timedelta_days 300) 0 ! Suc 0))
 \<and> (2 < length (date_ranges (timedelta_days 300) 0)
      \<and> fst (date_ranges (timedelta_days 300) 0 ! 2) < snd (date_ranges (timedelta_days 300) 0 ! 2)
      \<and> snd (date_ranges (timedelta_days 300) 0 ! 2) - fst (date_ranges (timedelta_days 300) 0 ! 2)
          \<le> timedelta_days 120)
 \<and> ((0::int) \<le> timedelta_days 130 \<and> timedelta_days 130 < timedelta_days 300
      \<and> (\<exists>!i. i < length (date_ranges (timedelta_days 300) 0)
              \<and> fst (date_ranges (timedelta_days 300) 0 ! i) \<le> timedelta_days 130
              \<and> timedelta_days 130 < snd (date_ranges (timedelta_days 300) 0 ! i)))
 \<and> (timedelta_days 1 \<le> timedelta_days 2
      \<and> date_ranges (timedelta_days 1) (timedelta_days 2) = [(timedelta_days 2, timedelta_days 1)])"
proof -
  have lt: "(0::int) < timedelta_days 300"
    and t: "(0::int) \<le> timedelta_days 130" "timedelta_days 130 < timedelta_days 300"
    and ge: "timedelta_days 1 \<le> timedelta_days 2"
    by (simp_all add: timedelta_days_def)
  have len: "length (date_ranges (timedelta_days 300) 0) = 3"
    by (simp add: date_ranges_def max_delta_def timedelta_days_def)
  note inst = date_ranges_partition[where start_date = 0 and now = "timedelta_days 300"]
  note inst' = date_ranges_partition[where start_date = "timedelta_days 2" and now = "timedelta_days 1"]
  from inst lt have a: "date_ranges (timedelta_days 300) 0 \<noteq> []"
    "fst (hd (date_ranges (timedelta_days 300) 0)) = 0"
    "snd (last (date_ranges (timedelta_days 300) 0)) = timedelta_days 300"
    by blast+
  from inst lt len have b:
    "snd (date_ranges (timedelta_days 300) 0 ! 0) = fst (date_ranges (timedelta_days 300) 0 ! Suc 0)"
    by simp
  from inst lt have "\<forall>i<length (date_ranges (timedelta_days 300) 0).
          fst (date_ranges (timedelta_days 300) 0 ! i) < snd (date_ranges (timedelta_days 300) 0 ! i)
        \<and> snd (date_ranges (timedelta_days 300) 0 ! i) - fst (date_ranges (timedelta_days 300) 0 ! i)
            \<le> timedelta_days 120"
    by blast
  with len have c: "fst (date_ranges (timedelta_days 300) 0 ! 2) < snd (date_ranges (timedelta_days 300) 0 ! 2)
      \<and> snd (date_ranges (timedelta_days 300) 0 ! 2) - fst (date_ranges (timedelta_days 300) 0 ! 2)
          \<le> timedelta_days 120"
    by simp
  from inst lt t have d: "\<exists>!i. i < length (date_ranges (timedelta_days 300) 0)
              \<and> fst (date_ranges (timedelta_days 300) 0 ! i) \<le> timedelta_days 130
              \<and> timedelta_days 130 < snd (date_ranges (timedelta_days 300) 0 ! i)"
    by blast
  from inst' ge have e: "date_ranges (timedelta_days 1) (timedelta_days 2) = [(timedelta_days 2, timedelta_days 1)]"
    by blast
  from lt t ge len a b c d e show ?thesis by simp
qed

text \<open>
  Claim C9. For \<open>start_date < now\<close>, every range but the last is exactly 120 days long,
  and the range of index \<open>k\<close> starts at \<open>start_date\<close> plus \<open>k\<close> times 120 days.
\<close>

theorem date_ranges_full_chunks:
  assumes "start_date < now"
  shows "(\<forall>k. Suc k < length (date_ranges now start_date) \<longrightarrow>
            snd (date_ranges now start_date ! k) - fst (date_ranges now start_date ! k)
              = timedelta_days 120)
       \<and> (\<forall>k < length (date_ranges now start_date).
            fst (date_ranges now start_date ! k) = start_date + int k * timedelta_days 120)"
proof -
  obtain n where rs: "date_ranges now start_date =
        map (full_chunk start_date) [0..<n] @ [(start_date + int n * max_delta, now)]"
    using date_ranges_closed[of now start_date] by blast
  have len: "length (date_ranges now start_date) = Suc n" using rs by simp
  note nth = nth_closed[OF rs]
  show ?thesis
  proof (intro conjI allI impI)
    fix k assume "Suc k < length (date_ranges now start_date)"
    with len have "k < n" by simp
    then show "snd (date_ranges now start_date ! k) - fst (date_ranges now start_date ! k)
              = timedelta_days 120"
      using nth[of k] by (simp add: max_delta_def)
  next
    fix k assume "k < length (date_ranges now start_date)"
    with len have "k \<le> n" by simp
    then show "fst (date_ranges now start_date ! k) = start_date + int k * timedelta_days 120"
      using nth(1)[of k] by (simp add: max_delta_def)
  qed
qed

text \<open>Claim C9 at 300 days before \<open>now\<close>: the ranges of index 1 and 2.\<close>

theorem date_ranges_full_chunks_witness:
  "(0::int) < timedelta_days 300
 \<and> Suc 1 < length (date_ranges (timedelta_days 300) 0)
 \<and> snd (date_ranges (timedelta_days 300) 0 ! 1) - fst (date_ranges (timedelta_days 300) 0 ! 1)
      = timedelta_days 120
 \<and> 2 < length (date_ranges (timedelta_days 300) 0)
 \<and> fst (date_ranges (timedelta_days 300) 0 ! 2) = 0 + int 2 * timedelta_days 120"
proof -
  have lt: "(0::int) < timedelta_days 300"
    by (simp add: timedelta_days_def)
  have len: "length (date_ranges (timedelta_days 300) 0) = 3"
    by (simp add: date_ranges_def max_delta_def timedelta_days_def)
  note inst = date_ranges_full_chunks[OF lt]
  from len have k: "Suc 1 < length (date_ranges (timedelta_days 300) 0)"
    and k': "2 < length (date_ranges (timedelta_days 300) 0)"
    by simp_all
  from inst k have "snd (date_ranges (timedelta_days 300) 0 ! 1)
      - fst (date_ranges (timedelta_days 300) 0 ! 1) = timedelta_days 120"
    by blast
  moreover from inst k' have
    "fst (date_ranges (timedelta_days 300) 0 ! 2) = 0 + int 2 * timedelta_days 120"
    by blast
  ultimately show ?thesis using lt k k' by blast
qed

subsection \<open>Merging result lists\<close>

lemma tuple_val_not_str: "PyStr s \<notin> tuple_val ` ps"
proof
  assume "PyStr s \<in> tuple_val ` ps"
  then obtain p where "tuple_val p = PyStr s" by auto
  then show False by (cases p rule: tuple_val.cases) simp_all
qed

text \<open>
  The test of line 199 looks for a string among tuples and never finds it, so every step
  of the loop appends.
\<close>

lemma add_loop_step:
  "i < length (heap w other_results) \<Longrightarrow>
   add_loop w first merged_results other_results i =
     add_loop (w\<lparr>heap := (heap w)(merged_results := heap w merged_results @ [heap w other_results ! i])\<rparr>)
       first merged_results other_results (Suc i)"
  by (subst add_loop.simps) (simp add: tuple_val_not_str Let_def)

lemma add_loop_stop:
  "\<not> i < length (heap w other_results) \<Longrightarrow>
   add_loop w first merged_results other_results i = Some w"
  by (subst add_loop.simps) simp

lemma add_loop_distinct:
  assumes "m \<noteq> r"
  shows "add_loop w first m r i = Some (w\<lparr>heap := (heap w)(m := heap w m @ drop i (heap w r))\<rparr>)"
proof (induction "length (heap w r) - i" arbitrary: w i)
  case 0
  then have "\<not> i < length (heap w r)" by simp
  then show ?case by (simp add: add_loop_stop)
next
  case (Suc n)
  then have lt: "i < length (heap w r)" by simp
  let ?w = "w\<lparr>heap := (heap w)(m := heap w m @ [heap w r ! i])\<rparr>"
  have same: "heap ?w r = heap w r" using assms by simp
  have "n = length (heap ?w r) - Suc i" using Suc.hyps(2) same by simp
  from Suc.hyps(1)[OF this]
  have rec: "add_loop ?w first m r (Suc i) =
          Some (?w\<lparr>heap := (heap ?w)(m := heap ?w m @ drop (Suc i) (heap ?w r))\<rparr>)" .
  have upd: "?w\<lparr>heap := (heap ?w)(m := heap ?w m @ drop (Suc i) (heap ?w r))\<rparr> =
             w\<lparr>heap := (heap w)(m := heap w m @ drop i (heap w r))\<rparr>"
    using assms lt by (simp add: Cons_nth_drop_Suc)
  have "add_loop w first m r i = add_loop ?w first m r (Suc i)"
    using lt by (rule add_loop_step)
  also note rec
  also note upd
  finally show ?case .
qed

text \<open>With two list objects the call returns, and the list of \<open>first\<close> has grown by all of \<open>other\<close>.\<close>

lemma add_distinct:
  assumes "results first \<noteq> results other"
  shows "add w first other =
     Some (w\<lparr>heap := (heap w)(results first := heap w (results first) @ heap w (results other))\<rparr>,
           init_list (results first))"
  using add_loop_distinct[OF assms, of w first 0] by (simp add: add_def Let_def)

lemma add_loop_returns_only_past_end:
  "add_loop w first m r i = Some w' \<Longrightarrow> r = m \<longrightarrow> \<not> i < length (heap w m)"
proof (rule add_loop.raw_induct[where P = "\<lambda>w first m r i w'. r = m \<longrightarrow> \<not> i < length (heap w m)"], goal_cases)
  case (1 f w first m r i w')
  show ?case
  proof (intro impI notI)
    assume r: "r = m" and lt: "i < length (heap w m)"
    let ?w = "w\<lparr>heap := (heap w)(m := heap w m @ [heap w m ! i])\<rparr>"
    from 1(3) r lt have "f ?w first m m (Suc i) = Some w'"
      by (simp add: tuple_val_not_str Let_def)
    from 1(2)[OF this] have "\<not> Suc i < length (heap ?w m)" by simp
    with lt show False by simp
  qed
qed

lemma add_loop_self_diverges:
  "i < length (heap w m) \<Longrightarrow> add_loop w first m m i = None"
  using add_loop_returns_only_past_end[of w first m m i] by (cases "add_loop w first m m i") auto

text \<open>
  When both operands refer to one list that is not empty, the loop appends to the list it
  iterates over and the call does not return.
\<close>

lemma add_self_diverges:
  "heap w (results first) \<noteq> [] \<Longrightarrow> results other = results first \<Longrightarrow> add w first other = None"
  using add_loop_self_diverges[of 0 w "results first" first] by (simp add: add_def Let_def)

lemma add_self_empty:
  "heap w (results first) = [] \<Longrightarrow> results other = results first \<Longrightarrow>
   add w first other = Some (w, init_list (results first))"
  using add_loop_stop[of 0 w "results first" first "results first"] by (simp add: add_def Let_def)

lemma example_heap:
  "heap example_world 0 = [example_cve ''CVE-1'' ''HIGH'', example_cve ''CVE-2'' ''LOW'']"
  "heap example_world 1 = [example_cve ''CVE-2'' ''CRITICAL'', example_cve ''CVE-3'' ''MEDIUM'']"
  "heap example_world (Suc 0) = [example_cve ''CVE-2'' ''CRITICAL'', example_cve ''CVE-3'' ''MEDIUM'']"
  "heap example_world 2 = [example_cve ''CVE-9'' ''LOW'']"
  "heap example_world 3 = []"
  "next_ref example_world = 3"
  by (simp_all add: example_world_def)

text \<open>
  Claim C1, at the two chunks of the end-to-end scenario: the merged list holds the
  identifier CVE-2 twice, once from each operand.
\<close>

theorem add_keeps_duplicate_identifier:
  "add example_world (init_list 0) (init_list 1) =
     Some (example_world\<lparr>heap := (heap example_world)
             (0 := [example_cve ''CVE-1'' ''HIGH'', example_cve ''CVE-2'' ''LOW'',
                    example_cve ''CVE-2'' ''CRITICAL'', example_cve ''CVE-3'' ''MEDIUM''])\<rparr>,
           init_list 0)
 \<and> map cve_id (records_of
        (example_world\<lparr>heap := (heap example_world)
             (0 := [example_cve ''CVE-1'' ''HIGH'', example_cve ''CVE-2'' ''LOW'',
                    example_cve ''CVE-2'' ''CRITICAL'', example_cve ''CVE-3'' ''MEDIUM''])\<rparr>)
        (init_list 0))
     = [''CVE-1'', ''CVE-2'', ''CVE-2'', ''CVE-3'']"
proof -
  have "results (init_list 0) \<noteq> results (init_list 1)" by (simp add: init_list_def)
  from add_distinct[OF this, of example_world] show ?thesis
    by (simp add: example_heap init_list_def records_of_def example_cve_def)
qed

text \<open>
  Claim C2 fails as stated: after merging the lists at addresses 1 and 2, whose identifiers
  are all different, the record sequence of the first operand is not what it was.
\<close>

theorem add_changes_first_operand:
  "add example_world (init_list 1) (init_list 2) =
     Some (example_world\<lparr>heap := (heap example_world)
             (1 := [example_cve ''CVE-2'' ''CRITICAL'', example_cve ''CVE-3'' ''MEDIUM'',
                    example_cve ''CVE-9'' ''LOW''])\<rparr>,
           init_list 1)
 \<and> records_of (example_world\<lparr>heap := (heap example_world)
             (1 := [example_cve ''CVE-2'' ''CRITICAL'', example_cve ''CVE-3'' ''MEDIUM'',
                    example_cve ''CVE-9'' ''LOW''])\<rparr>) (init_list 1)
     \<noteq> records_of example_world (init_list 1)"
proof -
  have "results (init_list 1) \<noteq> results (init_list 2)" by (simp add: init_list_def)
  from add_distinct[OF this, of example_world] show ?thesis
    by (simp add: example_heap init_list_def records_of_def)
qed

text \<open>
  Claim C2, amended. When the operands refer to two list objects, \<^verbatim>\<open>add\<close> returns a
  result list that refers to the list object of \<open>first\<close>; that list was extended in place,
  so the old record sequence of \<open>first\<close> is a prefix of its new one, which is also the
  record sequence of the result; the records of \<open>other\<close> and every other list are as before.
\<close>

theorem add_appends_in_place:
  assumes "results first \<noteq> results other"
  shows "\<exists>w' merged.
           add w first other = Some (w', merged)
         \<and> results merged = results first
         \<and> prefix (records_of w first) (records_of w' first)
         \<and> records_of w' merged = records_of w' first
         \<and> records_of w' other = records_of w other
         \<and> (\<forall>r. r \<noteq> results first \<longrightarrow> heap w' r = heap w r)"
  using assms by (simp add: add_distinct[OF assms] init_list_def records_of_def)

text \<open>Claim C2, amended, at the lists of addresses 1 and 2.\<close>

theorem add_appends_in_place_witness:
  "results (init_list 1) \<noteq> results (init_list 2)
 \<and> (\<exists>w' merged.
           add example_world (init_list 1) (init_list 2) = Some (w', merged)
         \<and> results merged = results (init_list 1)
         \<and> prefix (records_of example_world (init_list 1)) (records_of w' (init_list 1))
         \<and> records_of w' merged = records_of w' (init_list 1)
         \<and> records_of w' (init_list 2) = records_of example_world (init_list 2)
         \<and> heap w' 0 = heap example_world 0)"
proof -
  have ne: "results (init_list 1) \<noteq> results (init_list 2)"
    and ne0: "0 \<noteq> results (init_list 1)" by (simp_all add: init_list_def)
  from add_appends_in_place[OF ne, of example_world] obtain w' merged where
    "add example_world (init_list 1) (init_list 2) = Some (w', merged)"
    "results merged = results (init_list 1)"
    "prefix (records_of example_world (init_list 1)) (records_of w' (init_list 1))"
    "records_of w' merged = records_of w' (init_list 1)"
    "records_of w' (init_list 2) = records_of example_world (init_list 2)"
    "\<forall>r. r \<noteq> results (init_list 1) \<longrightarrow> heap w' r = heap example_world r"
    by blast
  with ne ne0 show ?thesis by blast
qed

lemma reduce_add_unset:
  "reduce_add w acc rs = Some (w', merged) \<Longrightarrow> num_results acc = Unset \<Longrightarrow>
   num_results merged = Unset"
proof (induction rs arbitrary: w acc)
  case Nil
  then show ?case by simp
next
  case (Cons x xs)
  from Cons.prems(1) obtain w1 acc1 where
    step: "add w acc x = Some (w1, acc1)" and rest: "reduce_add w1 acc1 xs = Some (w', merged)"
    by (auto split: option.splits)
  from step have "num_results acc1 = Unset"
    by (auto simp: add_def Let_def init_list_def split: option.splits)
  with Cons.IH[OF rest] show ?case .
qed

lemma merge_all_example:
  "merge_all example_world [init_list 0, init_list 1] =
     Some (example_world\<lparr>heap := (heap example_world)
             (3 := [example_cve ''CVE-1'' ''HIGH'', example_cve ''CVE-2'' ''LOW'',
                    example_cve ''CVE-2'' ''CRITICAL'', example_cve ''CVE-3'' ''MEDIUM'']),
             next_ref := 4\<rparr>,
           init_list 3)"
proof -
  have "results (init_list 3) \<noteq> results (init_list 0)"
    "results (init_list 3) \<noteq> results (init_list 1)"
    by (simp_all add: init_list_def)
  then show ?thesis
    by (simp add: merge_all_def empty_seed_def new_list_def example_heap add_distinct)
       (simp add: init_list_def example_heap)
qed

text \<open>
  Claim C10. A result list built from a list of records has no \<^verbatim>\<open>num_results\<close>:
  this holds for the list branch of the constructor, for the empty seed of the fold, for
  every result of \<^verbatim>\<open>add\<close> and for every result of the fold.
\<close>

theorem list_results_have_no_count:
  "num_results (init_list r) = Unset
 \<and> num_results (snd (empty_seed w)) = Unset
 \<and> (add w first other = Some (w', merged) \<longrightarrow> num_results merged = Unset)
 \<and> (merge_all w rs = Some (w'', folded) \<longrightarrow> num_results folded = Unset)"
proof (intro conjI impI)
  show "num_results (init_list r) = Unset" by (simp add: init_list_def)
  show seed: "num_results (snd (empty_seed w)) = Unset"
    by (simp add: empty_seed_def new_list_def init_list_def)
  show "num_results merged = Unset" if "add w first other = Some (w', merged)"
    using that by (auto simp: add_def Let_def init_list_def split: option.splits)
  show "num_results folded = Unset" if "merge_all w rs = Some (w'', folded)"
  proof -
    obtain w1 s where e: "empty_seed w = (w1, s)" by (cases "empty_seed w")
    with seed have "num_results s = Unset" by simp
    moreover from that e have "reduce_add w1 s rs = Some (w'', folded)"
      by (simp add: merge_all_def)
    ultimately show ?thesis by (rule reduce_add_unset[rotated])
  qed
qed

text \<open>
  Claim C10 at the merge of the lists of addresses 1 and 2 and at the fold of the two
  chunks of the scenario: both calls return, and their results have no count.
\<close>

theorem list_results_have_no_count_witness:
  "(\<exists>w' merged. add example_world (init_list 1) (init_list 2) = Some (w', merged)
       \<and> num_results merged = Unset)
 \<and> (\<exists>w'' folded. merge_all example_world [init_list 0, init_list 1] = Some (w'', folded)
       \<and> num_results folded = Unset)"
proof -
  have "results (init_list 1) \<noteq> results (init_list 2)" by (simp add: init_list_def)
  from add_distinct[OF this, of example_world] obtain w' merged where
    a: "add example_world (init_list 1) (init_list 2) = Some (w', merged)" by blast
  from merge_all_example obtain w'' folded where
    m: "merge_all example_world [init_list 0, init_list 1] = Some (w'', folded)" by blast
  from list_results_have_no_count[where w = example_world and first = "init_list 1"
      and other = "init_list 2" and w' = w' and merged = merged
      and rs = "[init_list 0, init_list 1]" and w'' = w'' and folded = folded] a m
  show ?thesis by blast
qed


subsection \<open>The latest record and the highest severity\<close>

text \<open>
  \<^verbatim>\<open>max\<close> returns the first of the items with the greatest key: the items before it
  have smaller keys, the items after it have keys that are not greater.
\<close>

lemma max_loop_first_max:
  assumes "\<forall>x\<in>set xs. key x = Inr (k x)"
  shows "\<exists>pre r post. max_loop key m (k m) xs = Inr r \<and> m # xs = pre @ r # post
           \<and> (\<forall>y\<in>set pre. k y < k r) \<and> (\<forall>y\<in>set post. k y \<le> k r)"
  using assms
proof (induction xs arbitrary: m)
  case Nil
  have "max_loop key m (k m) [] = Inr m \<and> [m] = [] @ m # []" by simp
  then show ?case by fastforce
next
  case (Cons x xs)
  then have kx: "key x = Inr (k x)" and rest: "\<forall>y\<in>set xs. key y = Inr (k y)" by simp_all
  show ?case
  proof (cases "k x > k m")
    case True
    from Cons.IH[OF rest, of x] obtain pre r post where
      r: "max_loop key x (k x) xs = Inr r" and split: "x # xs = pre @ r # post"
      and lo: "\<forall>y\<in>set pre. k y < k r" and hi: "\<forall>y\<in>set post. k y \<le> k r"
      by blast
    have "x \<in> set (pre @ [r])" using split by (cases pre) auto
    with lo have "k x \<le> k r" by auto
    with True have "k m < k r" by simp
    with lo have lo': "\<forall>y\<in>set (m # pre). k y < k r" by simp
    have "max_loop key m (k m) (x # xs) = Inr r"
      using True kx r by (simp add: and_then_def)
    moreover have "m # x # xs = (m # pre) @ r # post" using split by simp
    ultimately show ?thesis using lo' hi by blast
  next
    case False
    from Cons.IH[OF rest, of m] obtain pre r post where
      r: "max_loop key m (k m) xs = Inr r" and split: "m # xs = pre @ r # post"
      and lo: "\<forall>y\<in>set pre. k y < k r" and hi: "\<forall>y\<in>set post. k y \<le> k r"
      by blast
    have res: "max_loop key m (k m) (x # xs) = Inr r"
      using False kx r by (simp add: and_then_def)
    show ?thesis
    proof (cases pre)
      case Nil
      with split have "r = m" "post = xs" by simp_all
      with hi False have "\<forall>y\<in>set (x # xs). k y \<le> k m" by simp
      moreover have "m # x # xs = [] @ m # (x # xs)" by simp
      ultimately show ?thesis using res \<open>r = m\<close> by fastforce
    next
      case (Cons p pre')
      with split have p: "p = m" and xs: "xs = pre' @ r # post" by simp_all
      from lo Cons p have "k m < k r" by simp
      with False have "k x < k r" by simp
      with lo Cons p have "\<forall>y\<in>set (m # x # pre'). k y < k r" by simp
      moreover have "m # x # xs = (m # x # pre') @ r # post" using xs by simp
      ultimately show ?thesis using res hi by blast
    qed
  qed
qed

lemma max_key_first_max:
  assumes "xs \<noteq> []" and "\<forall>x\<in>set xs. key x = Inr (k x)"
  shows "\<exists>pre r post. max_key key xs = Inr r \<and> xs = pre @ r # post
           \<and> (\<forall>y\<in>set pre. k y < k r) \<and> (\<forall>y\<in>set post. k y \<le> k r)"
proof -
  from assms(1) obtain m rest where xs: "xs = m # rest" by (cases xs) auto
  with assms(2) have "key m = Inr (k m)" "\<forall>x\<in>set rest. key x = Inr (k x)" by simp_all
  with max_loop_first_max[of rest key k m] xs show ?thesis
    by (simp add: max_key_def and_then_def)
qed

lemma max_key_empty: "max_key key [] = Inl ValueError"
  by (simp add: max_key_def)

text \<open>
  On a result list that is not empty, \<^verbatim>\<open>get_latest\<close> returns the first of the records
  with the greatest publication date.
\<close>

lemma get_latest_first_max:
  assumes "records_of w self \<noteq> []"
  shows "\<exists>pre r post. get_latest w self = Inr (Some r) \<and> records_of w self = pre @ r # post
           \<and> (\<forall>y\<in>set pre. published_date y < published_date r)
           \<and> (\<forall>y\<in>set post. published_date y \<le> published_date r)"
proof -
  from max_key_first_max[of "heap w (results self)" "\<lambda>x. Inr (published_date x)" published_date]
    assms
  obtain pre r post where
    "max_key (\<lambda>x. Inr (published_date x)) (heap w (results self)) = Inr r"
    "heap w (results self) = pre @ r # post"
    "\<forall>y\<in>set pre. published_date y < published_date r"
    "\<forall>y\<in>set post. published_date y \<le> published_date r"
    unfolding records_of_def by auto
  then show ?thesis
    by (auto simp: get_latest_def and_then_def records_of_def)
qed

text \<open>
  Claim C4, at the empty result list that \<^verbatim>\<open>CveResultList([])\<close> builds in any world:
  \<^verbatim>\<open>get_latest\<close> raises \<^verbatim>\<open>ValueError\<close> and returns nothing.
\<close>

theorem get_latest_empty_raises:
  "get_latest (fst (empty_seed w)) (snd (empty_seed w)) = Inl ValueError
 \<and> records_of (fst (empty_seed w)) (snd (empty_seed w)) = []"
  by (simp add: get_latest_def empty_seed_def new_list_def init_list_def max_key_empty
      and_then_def records_of_def)

lemma severity_ranking_table:
  "severity_ranking (c\<lparr>severity := ''UNKNOWN''\<rparr>) = Inr (- 1)"
  "severity_ranking (c\<lparr>severity := ''LOW''\<rparr>) = Inr 0"
  "severity_ranking (c\<lparr>severity := ''MEDIUM''\<rparr>) = Inr 1"
  "severity_ranking (c\<lparr>severity := ''HIGH''\<rparr>) = Inr 2"
  "severity_ranking (c\<lparr>severity := ''CRITICAL''\<rparr>) = Inr 3"
  by (simp_all add: severity_ranking_def severities_def)

lemma severity_ranking_label:
  "severity c \<in> set (map fst severities) \<Longrightarrow> \<exists>rk. severity_ranking c = Inr rk"
  by (auto simp: severity_ranking_def severities_def)

text \<open>A label outside the table makes the ranking, and with it the search, raise.\<close>

lemma severity_ranking_other_label:
  "severity c \<notin> set (map fst severities) \<Longrightarrow> severity_ranking c = Inl KeyError"
  by (simp add: severity_ranking_def map_of_eq_None_iff[THEN iffD2])

text \<open>
  Claim C7. On a result list that is not empty and whose records carry labels of the
  table, \<^verbatim>\<open>get_max_severity\<close> returns the label of a record \<open>r\<close> such that every
  record before \<open>r\<close> has a smaller rank and every record after \<open>r\<close> a rank that is not
  greater; on the empty list it returns \<^verbatim>\<open>None\<close>; the ranks of UNKNOWN, LOW, MEDIUM,
  HIGH and CRITICAL are -1, 0, 1, 2 and 3.
\<close>

theorem get_max_severity_first_max:
  "(records_of w self \<noteq> []
      \<and> (\<forall>c\<in>set (records_of w self).
            severity c \<in> {''UNKNOWN'', ''LOW'', ''MEDIUM'', ''HIGH'', ''CRITICAL''})
    \<longrightarrow> (\<exists>pre r post rk.
           get_max_severity w self = Inr (Some (severity r))
         \<and> records_of w self = pre @ r # post
         \<and> severity_ranking r = Inr rk
         \<and> (\<forall>c\<in>set pre. \<exists>rk'. severity_ranking c = Inr rk' \<and> rk' < rk)
         \<and> (\<forall>c\<in>set post. \<exists>rk'. severity_ranking c = Inr rk' \<and> rk' \<le> rk)))
 \<and> (records_of w self = [] \<longrightarrow> get_max_severity w self = Inr None)
 \<and> severity_ranking (c\<lparr>severity := ''UNKNOWN''\<rparr>) = Inr (- 1)
 \<and> severity_ranking (c\<lparr>severity := ''LOW''\<rparr>) = Inr 0
 \<and> severity_ranking (c\<lparr>severity := ''MEDIUM''\<rparr>) = Inr 1
 \<and> severity_ranking (c\<lparr>severity := ''HIGH''\<rparr>) = Inr 2
 \<and> severity_ranking (c\<lparr>severity := ''CRITICAL''\<rparr>) = Inr 3"
proof (intro conjI impI)
  assume a: "records_of w self \<noteq> []
      \<and> (\<forall>c\<in>set (records_of w self).
            severity c \<in> {''UNKNOWN'', ''LOW'', ''MEDIUM'', ''HIGH'', ''CRITICAL''})"
  define k where "k = (\<lambda>c. case severity_ranking c of Inr rk \<Rightarrow> rk | Inl e \<Rightarrow> 0)"
  from a have ne: "heap w (results self) \<noteq> []"
    and lab: "\<forall>c\<in>set (heap w (results self)). severity c \<in> set (map fst severities)"
    by (simp_all add: records_of_def severities_def)
  have keys: "\<forall>c\<in>set (heap w (results self)). severity_ranking c = Inr (k c)"
  proof
    fix c assume "c \<in> set (heap w (results self))"
    with lab obtain rk where "severity_ranking c = Inr rk"
      using severity_ranking_label by blast
    then show "severity_ranking c = Inr (k c)" by (simp add: k_def)
  qed
  from max_key_first_max[OF ne keys] obtain pre r post where
    m: "max_key severity_ranking (heap w (results self)) = Inr r"
    and split: "heap w (results self) = pre @ r # post"
    and lo: "\<forall>y\<in>set pre. k y < k r"
    and hi: "\<forall>y\<in>set post. k y \<le> k r"
    by blast
  have res: "get_max_severity w self = Inr (Some (severity r))"
    using ne m by (simp add: get_max_severity_def and_then_def)
  have rk: "severity_ranking r = Inr (k r)"
    using keys split by simp
  have lo': "\<forall>c\<in>set pre. \<exists>rk'. severity_ranking c = Inr rk' \<and> rk' < k r"
    using keys split lo by simp
  have hi': "\<forall>c\<in>set post. \<exists>rk'. severity_ranking c = Inr rk' \<and> rk' \<le> k r"
    using keys split hi by simp
  from res split rk lo' hi' show "\<exists>pre r post rk.
           get_max_severity w self = Inr (Some (severity r))
         \<and> records_of w self = pre @ r # post
         \<and> severity_ranking r = Inr rk
         \<and> (\<forall>c\<in>set pre. \<exists>rk'. severity_ranking c = Inr rk' \<and> rk' < rk)
         \<and> (\<forall>c\<in>set post. \<exists>rk'. severity_ranking c = Inr rk' \<and> rk' \<le> rk)"
    unfolding records_of_def by blast
next
  assume "records_of w self = []"
  then show "get_max_severity w self = Inr None"
    by (simp add: get_max_severity_def records_of_def)
qed (simp_all add: severity_ranking_table)

lemma get_max_severity_example:
  "get_max_severity example_world (init_list 1) = Inr (Some ''CRITICAL'')"
  by (simp add: get_max_severity_def max_key_def and_then_def severity_ranking_def
      severities_def example_world_def init_list_def example_cve_def)

text \<open>
  Claim C7 at the second chunk of the scenario, CRITICAL before MEDIUM, and at the empty
  seed of the fold.
\<close>

theorem get_max_severity_first_max_witness:
  "records_of example_world (init_list 1) \<noteq> []
 \<and> get_max_severity example_world (init_list 1) = Inr (Some ''CRITICAL'')
 \<and> records_of (fst (empty_seed example_world)) (snd (empty_seed example_world)) = []
 \<and> get_max_severity (fst (empty_seed example_world)) (snd (empty_seed example_world)) = Inr None"
proof -
  have recs: "records_of example_world (init_list 1) =
      [example_cve ''CVE-2'' ''CRITICAL'', example_cve ''CVE-3'' ''MEDIUM'']"
    by (simp add: records_of_def example_world_def init_list_def)
  have h: "records_of example_world (init_list 1) \<noteq> []
     \<and> (\<forall>c\<in>set (records_of example_world (init_list 1)).
          severity c \<in> {''UNKNOWN'', ''LOW'', ''MEDIUM'', ''HIGH'', ''CRITICAL''})"
    unfolding recs by (simp add: example_cve_def)
  have e: "records_of (fst (empty_seed example_world)) (snd (empty_seed example_world)) = []"
    by (simp add: records_of_def empty_seed_def new_list_def init_list_def)
  note a = get_max_severity_first_max[where w = example_world and self = "init_list 1"]
  note b = get_max_severity_first_max[where w = "fst (empty_seed example_world)"
      and self = "snd (empty_seed example_world)"]
  from a h obtain pre r post rk where
    res: "get_max_severity example_world (init_list 1) = Inr (Some (severity r))"
    and split: "records_of example_world (init_list 1) = pre @ r # post"
    and rk: "severity_ranking r = Inr rk"
    and lo: "\<forall>c\<in>set pre. \<exists>rk'. severity_ranking c = Inr rk' \<and> rk' < rk"
    by blast
  have "severity r = ''CRITICAL''"
  proof (cases pre)
    case Nil
    with split recs show ?thesis by (simp add: example_cve_def)
  next
    case (Cons p pre')
    with split recs have p: "p = example_cve ''CVE-2'' ''CRITICAL''"
      and r: "r = example_cve ''CVE-3'' ''MEDIUM''"
      by (auto simp: append_eq_Cons_conv)
    from lo Cons obtain rk' where "severity_ranking p = Inr rk'" "rk' < rk" by auto
    with p r rk have False
      by (simp add: severity_ranking_def severities_def example_cve_def)
    then show ?thesis ..
  qed
  with res have "get_max_severity example_world (init_list 1) = Inr (Some ''CRITICAL'')"
    by simp
  moreover from b e
  have "get_max_severity (fst (empty_seed example_world)) (snd (empty_seed example_world)) = Inr None"
    by blast
  ultimately show ?thesis using h e by blast
qed


subsection \<open>Identifiers and detail pages\<close>

text \<open>
  Claim C8. With \<^verbatim>\<open>make_urls\<close> set, \<^verbatim>\<open>get_cve_id_list\<close> returns one pair per
  record, in the order of the records, of the identifier and the detail prefix followed
  by the identifier; the answer of the network to a HEAD request has no part in it, since
  \<^verbatim>\<open>get_url\<close> is called without the check and then returns the address as it is.
\<close>

theorem get_cve_id_list_with_urls:
  "get_cve_id_list w self True =
     map (\<lambda>cve. (cve_id cve, Some (DETAIL_VIEW_PREFIX @ cve_id cve))) (records_of w self)
 \<and> length (get_cve_id_list w self True) = length (records_of w self)
 \<and> get_cve_id_list (w\<lparr>head_status := probe\<rparr>) self True = get_cve_id_list w self True
 \<and> get_url w cve False = Some (DETAIL_VIEW_PREFIX @ cve_id cve)"
  by (simp add: get_cve_id_list_def get_url_def records_of_def)

lemma get_cve_id_list_example:
  "get_cve_id_list example_world (init_list 0) True =
     [(''CVE-1'', Some ''https://nvd.nist.gov/vuln/detail/CVE-1''),
      (''CVE-2'', Some ''https://nvd.nist.gov/vuln/detail/CVE-2'')]"
  by (simp add: get_cve_id_list_def get_url_def example_world_def init_list_def
      example_cve_def DETAIL_VIEW_PREFIX_def)

text \<open>With the check, the address is returned only for the status 200.\<close>

lemma get_url_checked:
  "get_url w cve True =
     (if head_status w (DETAIL_VIEW_PREFIX @ cve_id cve) = 200
      then Some (DETAIL_VIEW_PREFIX @ cve_id cve) else None)"
  by (simp add: get_url_def)

subsection \<open>Parsing an item\<close>

text \<open>
  Claim C6 fails as stated: an item without the key \<^verbatim>\<open>impact\<close>, whose dates and
  identifier parse, yields no record; the lookup of line 135 raises \<^verbatim>\<open>KeyError\<close>.
\<close>

theorem result_to_cve_absent_impact_fails:
  "getitem (example_item []) ''impact'' = Inl KeyError
 \<and> result_to_cve example_strptime (example_item []) = Inl KeyError"
  by (simp add: result_to_cve_def example_item_def example_strptime_def and_then_def
      strptime_json_def)

text \<open>
  Claim C6, amended. For an item whose dates and identifier parse: when the impact is the
  empty object the record has the severity UNKNOWN; when the key \<^verbatim>\<open>impact\<close> is
  missing the parse fails with \<^verbatim>\<open>KeyError\<close>; when the impact is anything else and
  has a string at \<^verbatim>\<open>baseMetricV2.severity\<close>, the record has that string as its
  severity.
\<close>

theorem result_to_cve_severity:
  assumes "getitem item ''lastModifiedDate'' = Inr (JStr m)" and "strptime m = Some mod_date"
    and "getitem item ''publishedDate'' = Inr (JStr p)" and "strptime p = Some pub_date"
    and "getitem item ''cve'' = Inr c" and "getitem c ''CVE_data_meta'' = Inr meta"
    and "getitem meta ''ID'' = Inr (JStr i)"
  shows "(getitem item ''impact'' = Inr (JObj []) \<longrightarrow>
           result_to_cve strptime item =
             Inr \<lparr>cve_id = i, published_date = pub_date, last_modified_date = mod_date,
                  severity = ''UNKNOWN''\<rparr>)
       \<and> (getitem item ''impact'' = Inl KeyError \<longrightarrow> result_to_cve strptime item = Inl KeyError)
       \<and> (\<forall>impact bm s.
             getitem item ''impact'' = Inr impact \<and> impact \<noteq> JObj []
           \<and> getitem impact ''baseMetricV2'' = Inr bm \<and> getitem bm ''severity'' = Inr (JStr s) \<longrightarrow>
             result_to_cve strptime item =
               Inr \<lparr>cve_id = i, published_date = pub_date, last_modified_date = mod_date,
                    severity = s\<rparr>)"
  using assms by (simp add: result_to_cve_def and_then_def strptime_json_def)

lemma example_item_fields:
  "getitem (example_item fs) ''lastModifiedDate'' = Inr (JStr ''2020-01-01T00:00Z'')"
  "getitem (example_item fs) ''publishedDate'' = Inr (JStr ''2020-01-01T00:00Z'')"
  "getitem (example_item fs) ''cve'' = Inr (JObj [(''CVE_data_meta'', JObj [(''ID'', JStr ''CVE-1'')])])"
  "getitem (JObj [(''CVE_data_meta'', JObj [(''ID'', JStr ''CVE-1'')])]) ''CVE_data_meta''
     = Inr (JObj [(''ID'', JStr ''CVE-1'')])"
  "getitem (JObj [(''ID'', JStr ''CVE-1'')]) ''ID'' = Inr (JStr ''CVE-1'')"
  "example_strptime ''2020-01-01T00:00Z'' = Some (timedelta_days 737424)"
  by (simp_all add: example_item_def example_strptime_def)

lemma example_item_impact:
  "getitem (example_item [(''impact'', v)]) ''impact'' = Inr v"
  "getitem (example_item []) ''impact'' = Inl KeyError"
  by (simp_all add: example_item_def)

text \<open>
  Claim C6, amended, at three items: an empty impact, no impact, and an impact with the
  severity HIGH.
\<close>

theorem result_to_cve_severity_witness:
  "result_to_cve example_strptime (example_item [(''impact'', JObj [])]) =
     Inr \<lparr>cve_id = ''CVE-1'', published_date = timedelta_days 737424,
          last_modified_date = timedelta_days 737424, severity = ''UNKNOWN''\<rparr>
 \<and> result_to_cve example_strptime (example_item []) = Inl KeyError
 \<and> result_to_cve example_strptime
      (example_item [(''impact'', JObj [(''baseMetricV2'', JObj [(''severity'', JStr ''HIGH'')])])]) =
     Inr \<lparr>cve_id = ''CVE-1'', published_date = timedelta_days 737424,
          last_modified_date = timedelta_days 737424, severity = ''HIGH''\<rparr>"
proof -
  note inst = result_to_cve_severity[where strptime = example_strptime,
      OF example_item_fields(1) example_item_fields(6)
      example_item_fields(2) example_item_fields(6) example_item_fields(3)
      example_item_fields(4) example_item_fields(5)]
  have a: "getitem (example_item [(''impact'', JObj [])]) ''impact'' = Inr (JObj [])"
    by (rule example_item_impact)
  have b: "getitem (example_item []) ''impact'' = Inl KeyError"
    by (rule example_item_impact)
  have c: "getitem (example_item [(''impact'', JObj [(''baseMetricV2'', JObj [(''severity'', JStr ''HIGH'')])])]) ''impact''
        = Inr (JObj [(''baseMetricV2'', JObj [(''severity'', JStr ''HIGH'')])])
      \<and> JObj [(''baseMetricV2'', JObj [(''severity'', JStr ''HIGH'')])] \<noteq> JObj []
      \<and> getitem (JObj [(''baseMetricV2'', JObj [(''severity'', JStr ''HIGH'')])]) ''baseMetricV2''
           = Inr (JObj [(''severity'', JStr ''HIGH'')])
      \<and> getitem (JObj [(''severity'', JStr ''HIGH'')]) ''severity'' = Inr (JStr ''HIGH'')"
    by (simp add: example_item_impact)
  from inst[of "[(''impact'', JObj [])]"] a
  have 1: "result_to_cve example_strptime (example_item [(''impact'', JObj [])]) =
     Inr \<lparr>cve_id = ''CVE-1'', published_date = timedelta_days 737424,
          last_modified_date = timedelta_days 737424, severity = ''UNKNOWN''\<rparr>"
    by blast
  from inst[of "[]"] b
  have 2: "result_to_cve example_strptime (example_item []) = Inl KeyError"
    by blast
  from inst[of "[(''impact'', JObj [(''baseMetricV2'', JObj [(''severity'', JStr ''HIGH'')])])]"] c
  have 3: "result_to_cve example_strptime
      (example_item [(''impact'', JObj [(''baseMetricV2'', JObj [(''severity'', JStr ''HIGH'')])])]) =
     Inr \<lparr>cve_id = ''CVE-1'', published_date = timedelta_days 737424,
          last_modified_date = timedelta_days 737424, severity = ''HIGH''\<rparr>"
    by blast
  from 1 2 3 show ?thesis by blast
qed

subsection \<open>Looking an identifier up\<close>

text \<open>
  A response with the key \<^verbatim>\<open>message\<close> makes \<^verbatim>\<open>search_by_id\<close> raise
  \<^verbatim>\<open>AttributeError\<close>, whatever the message and the count are.
\<close>

lemma search_by_id_message_raises:
  assumes "ok (http_get w (SEARCH_URL_SPECIFIC @ ''/'' @ ident) [])"
    and "body (http_get w (SEARCH_URL_SPECIFIC @ ''/'' @ ident) []) = Some (JObj kvs)"
    and "''message'' \<in> set (map fst kvs)"
  shows "search_by_id strptime w ident = Inl AttributeError"
proof -
  from assms(3) obtain v where "map_of kvs ''message'' = Some v"
    by (metis map_of_eq_None_iff not_None_eq set_map)
  with assms show ?thesis
    by (simp add: search_by_id_def request_specific_by_id_def perform_request_def
        and_then_def contains_method_def Let_def)
qed

text \<open>
  Without that key the count decides: zero raises \<^verbatim>\<open>APIError\<close>, anything else
  goes on to the constructor.
\<close>

lemma search_by_id_without_message:
  assumes "ok (http_get w (SEARCH_URL_SPECIFIC @ ''/'' @ ident) [])"
    and "body (http_get w (SEARCH_URL_SPECIFIC @ ''/'' @ ident) []) = Some (JObj kvs)"
    and "''message'' \<notin> set (map fst kvs)"
    and "map_of kvs ''totalResults'' = Some n"
  shows "search_by_id strptime w ident =
           (if eq_zero n then Inl APIError else init strptime w (Decoded (JObj kvs)))"
  using assms
  by (simp add: search_by_id_def request_specific_by_id_def perform_request_def
        and_then_def Let_def)

text \<open>
  Claim C3, at the response of the service for an unknown identifier, which carries a
  message and the count zero: \<^verbatim>\<open>search_by_id\<close> raises \<^verbatim>\<open>AttributeError\<close>,
  not \<^verbatim>\<open>APIError\<close>.
\<close>

theorem search_by_id_not_found_raises_attribute_error:
  "search_by_id example_strptime example_world ''CVE-0000-0000'' = Inl AttributeError
 \<and> perform_request example_world (SEARCH_URL_SPECIFIC @ ''/'' @ ''CVE-0000-0000'') []
      = Inr not_found_body
 \<and> getitem not_found_body ''totalResults'' = Inr (JNum 0)
 \<and> getitem not_found_body ''message'' = Inr (JStr ''Unable to find vuln CVE-0000-0000'')"
  by (simp add: search_by_id_def request_specific_by_id_def perform_request_def
      and_then_def contains_method_def Let_def example_world_def not_found_body_def)

end
